theory Spec2Isabelle
  imports Complex_Main
begin

section \<open>Pose-driven push-up counter of the PoseAI front end\<close>

text \<open>
  The embedding follows the methods of class \<open>PoseAI\<close> in \<open>src/body-measurement.js\<close>:
  \<open>updateArmAngle\<close>, \<open>updateBackAngle\<close>, \<open>checkPushupPositions\<close>, \<open>getCurrentPose\<close>,
  \<open>speak\<close>, \<open>drawKeypoints\<close>, \<open>startWorkoutSession\<close>, \<open>resetWorkout\<close>, \<open>selectExercise\<close>
  and the part of \<open>detectPose\<close> that stores a pose in the running session.

  Conventions of the model:
  \<^item> JavaScript numbers that hold coordinates, scores and angles are real numbers
    (no rounding, no NaN, no infinities); \<open>reps\<close> is a natural number, and
    \<open>reps++\<close> adds 1 (the counter stays far below 2 to the 53).
  \<^item> Reading a property of \<open>undefined\<close> throws a TypeError. A method that can throw
    returns an \<open>outcome\<close>: \<open>Returned s\<close> or \<open>TypeError s\<close>, each with the fields of
    \<open>this\<close> as they stand at that moment (assignments made before the throw persist).
  \<^item> Writes to the page and calls of the speech engine are returned as a list of
    events, in program order. The page is taken to hold the elements the code looks up
    and the browser to have a speech engine (\<open>'speechSynthesis' in window\<close>).
  \<^item> Canvas drawing is left out.
\<close>

subsection \<open>Data\<close>

text \<open>A keypoint \<open>{x, y, score}\<close>; the fields \<open>x\<close> and \<open>y\<close> are named \<open>kx\<close> and \<open>ky\<close>.\<close>

record keypoint =
  kx :: real
  ky :: real
  score :: real

record pose =
  keypoints :: "keypoint list"

text \<open>The running session; only its \<open>poses\<close> array is read by the counter.\<close>

record session =
  poses :: "pose list"

record poseAI =
  workoutSession :: "session option"
  currentExercise :: string
  reps :: nat
  elbowAngle :: real
  backAngle :: real
  upPosition :: bool
  downPosition :: bool
  highlightBack :: bool
  backWarningGiven :: bool
  voiceFeedbackEnabled :: bool

datatype event =
  Speak string
  | FormFeedback string string
  | AIFeedback string
  | SetTextContent string string

datatype 'a outcome = Returned 'a | TypeError 'a

type_synonym result = "poseAI outcome \<times> event list"

text \<open>The three phases of the specification, read off the two position flags.\<close>

datatype phase = Neutral | Up | Down

subsection \<open>JavaScript primitives\<close>

text \<open>\<open>Math.atan2(y, x)\<close> on real numbers.\<close>

definition atan2 :: "real \<Rightarrow> real \<Rightarrow> real" where
  "atan2 b a =
     (if 0 < a then arctan (b / a)
      else if a < 0 \<and> 0 \<le> b then arctan (b / a) + pi
      else if a < 0 then arctan (b / a) - pi
      else if 0 < b then pi / 2
      else if b < 0 then - (pi / 2)
      else 0)"

text \<open>The remainder operator \<open>n % d\<close>: the quotient is truncated towards zero, so the
  result has the sign of the dividend.\<close>

definition jsRem :: "real \<Rightarrow> real \<Rightarrow> real" where
  "jsRem n d = n - d * of_int (if 0 \<le> n / d then \<lfloor>n / d\<rfloor> else \<lceil>n / d\<rceil>)"

text \<open>\<open>Number.prototype.toString()\<close> on a natural number: its decimal digits.\<close>

function toString :: "nat \<Rightarrow> string" where
  "toString n =
     (if n < 10 then [''0123456789'' ! n]
      else toString (n div 10) @ [''0123456789'' ! (n mod 10)])"
  by pat_completeness auto
termination
  by (relation "measure id") auto

declare toString.simps [simp del]

text \<open>\<open>array[i]\<close>: \<open>None\<close> stands for \<open>undefined\<close>.\<close>

definition keypointAt :: "pose \<Rightarrow> nat \<Rightarrow> keypoint option" where
  "keypointAt p i = (if i < length (keypoints p) then Some (keypoints p ! i) else None)"

text \<open>The expression both angle methods compute: the difference of the directions
  from the vertex \<open>v\<close> to \<open>a\<close> and to \<open>b\<close>, in degrees.\<close>

definition jointAngle :: "keypoint \<Rightarrow> keypoint \<Rightarrow> keypoint \<Rightarrow> real" where
  "jointAngle a v b =
     (atan2 (ky a - ky v) (kx a - kx v) - atan2 (ky b - ky v) (kx b - kx v)) * (180 / pi)"

subsection \<open>Sequencing of methods\<close>

definition after :: "result \<Rightarrow> poseAI" where
  "after r = (case fst r of Returned s \<Rightarrow> s | TypeError s \<Rightarrow> s)"

definition andThen :: "result \<Rightarrow> (poseAI \<Rightarrow> result) \<Rightarrow> result" where
  "andThen r f =
     (case r of
        (Returned s, ev) \<Rightarrow> (case f s of (t, ev') \<Rightarrow> (t, ev @ ev'))
      | (TypeError s, ev) \<Rightarrow> (TypeError s, ev))"

subsection \<open>The methods\<close>

definition PoseAI_constructor :: poseAI where
  "PoseAI_constructor =
     \<lparr> workoutSession = None, currentExercise = ''pushups'', reps = 0, elbowAngle = 999,
       backAngle = 0, upPosition = False, downPosition = False, highlightBack = False,
       backWarningGiven = False, voiceFeedbackEnabled = True \<rparr>"

definition speak :: "string \<Rightarrow> poseAI \<Rightarrow> event list" where
  "speak text s = (if voiceFeedbackEnabled s then [Speak text] else [])"

definition updateArmAngle :: "pose \<Rightarrow> poseAI \<Rightarrow> result" where
  "updateArmAngle p s =
     (case (keypointAt p 9, keypointAt p 5, keypointAt p 7) of
        (Some leftWrist, Some leftShoulder, Some leftElbow) \<Rightarrow>
          (let angle = jointAngle leftWrist leftElbow leftShoulder
           in (Returned
                 (if score leftWrist > 0.3 \<and> score leftElbow > 0.3 \<and> score leftShoulder > 0.3
                  then s\<lparr>elbowAngle := angle\<rparr> else s), []))
      | _ \<Rightarrow> (TypeError s, []))"

text \<open>The second half of \<open>updateBackAngle\<close>: the posture test on the stored angle.\<close>

definition checkBack :: "poseAI \<Rightarrow> poseAI \<times> event list" where
  "checkBack s =
     (if backAngle s < 20 \<or> backAngle s > 160
      then (s\<lparr>highlightBack := False\<rparr>, [FormFeedback ''Good posture!'' ''good''])
      else
        (let s1 = s\<lparr>highlightBack := True\<rparr>;
             ev = [FormFeedback ''Keep your back straight'' ''warning'']
         in if backWarningGiven s1 \<noteq> True \<and> voiceFeedbackEnabled s1
            then (s1\<lparr>backWarningGiven := True\<rparr>, ev @ speak ''Keep your back straight'' s1)
            else (s1, ev)))"

definition updateBackAngle :: "pose \<Rightarrow> poseAI \<Rightarrow> result" where
  "updateBackAngle p s =
     (case (keypointAt p 5, keypointAt p 11, keypointAt p 13) of
        (Some leftShoulder, Some leftHip, Some leftKnee) \<Rightarrow>
          (let angle = jointAngle leftKnee leftHip leftShoulder;
               backAngle' = jsRem angle 180;
               s1 = (if score leftKnee > 0.3 \<and> score leftHip > 0.3 \<and> score leftShoulder > 0.3
                     then s\<lparr>backAngle := backAngle'\<rparr> else s)
           in case checkBack s1 of (s2, ev) \<Rightarrow> (Returned s2, ev))
      | _ \<Rightarrow> (TypeError s, []))"

definition getCurrentPose :: "poseAI \<Rightarrow> pose option" where
  "getCurrentPose s =
     (case workoutSession s of
        None \<Rightarrow> None
      | Some w \<Rightarrow> if length (poses w) > 0 then Some (last (poses w)) else None)"

text \<open>The constant \<open>elbowAboveNose\<close> of \<open>checkPushupPositions\<close>: \<open>None\<close> when reading
  \<open>keypoints[0].y\<close> or \<open>keypoints[7].y\<close> throws, \<open>Some False\<close> when there is no current
  pose (\<open>null\<close> is falsy).\<close>

definition elbowAboveNose :: "poseAI \<Rightarrow> bool option" where
  "elbowAboveNose s =
     (case getCurrentPose s of
        None \<Rightarrow> Some False
      | Some p \<Rightarrow>
          (case (keypointAt p 0, keypointAt p 7) of
             (Some nose, Some elbow) \<Rightarrow> Some (ky nose > ky elbow)
           | _ \<Rightarrow> None))"

text \<open>The guards of the two blocks of \<open>checkPushupPositions\<close>; the second one is given
  the value of the constant \<open>elbowAboveNose\<close>.\<close>

definition upFires :: "poseAI \<Rightarrow> bool" where
  "upFires s = (elbowAngle s > 170 \<and> elbowAngle s < 200)"

definition downFires :: "bool \<Rightarrow> poseAI \<Rightarrow> bool" where
  "downFires elbowAbove s =
     (highlightBack s = False \<and> elbowAbove \<and> \<bar>elbowAngle s\<bar> > 70 \<and> \<bar>elbowAngle s\<bar> < 100)"

text \<open>The first block of \<open>checkPushupPositions\<close> (up position).\<close>

definition upRule :: "poseAI \<Rightarrow> poseAI \<times> event list" where
  "upRule s =
     (if upFires s
      then
        (let (s1, ev) =
               (if downPosition s = True
                then
                  (let s' = s\<lparr>reps := reps s + 1\<rparr>
                   in (s', [SetTextContent ''rep-count'' (toString (reps s'))]
                           @ (if voiceFeedbackEnabled s' then speak (toString (reps s')) s' else [])
                           @ [AIFeedback (''Great form! Rep '' @ toString (reps s') @ '' completed.'')]))
                else (s, []))
         in (s1\<lparr>upPosition := True, downPosition := False\<rparr>, ev))
      else (s, []))"

text \<open>The second block of \<open>checkPushupPositions\<close> (down position).\<close>

definition downRule :: "bool \<Rightarrow> poseAI \<Rightarrow> poseAI \<times> event list" where
  "downRule elbowAbove s =
     (if downFires elbowAbove s
      then
        (s\<lparr>downPosition := True, upPosition := False\<rparr>,
         if upPosition s = True \<and> voiceFeedbackEnabled s then speak ''Up'' s else [])
      else (s, []))"

definition checkPushupPositions :: "poseAI \<Rightarrow> result" where
  "checkPushupPositions s =
     (case upRule s of
        (s1, ev1) \<Rightarrow>
          (case elbowAboveNose s1 of
             None \<Rightarrow> (TypeError s1, ev1)
           | Some elbowAbove \<Rightarrow> (case downRule elbowAbove s1 of (s2, ev2) \<Rightarrow> (Returned s2, ev1 @ ev2))))"

text \<open>\<open>drawKeypoints(p, poses)\<close> without the drawing: the angles and the counter are
  updated only when exactly 17 keypoints of the first pose score above 0.3. An absent
  \<open>poses\<close> is the empty list.\<close>

definition drawKeypoints :: "pose list \<Rightarrow> poseAI \<Rightarrow> result" where
  "drawKeypoints ps s =
     (case ps of
        [] \<Rightarrow> (Returned s, [])
      | p # _ \<Rightarrow>
          if length (filter (\<lambda>kp. score kp > 0.3) (keypoints p)) = 17
          then andThen (andThen (updateArmAngle p s) (updateBackAngle p)) checkPushupPositions
          else (Returned s, []))"

definition startWorkoutSession :: "poseAI \<Rightarrow> poseAI" where
  "startWorkoutSession s = s\<lparr>workoutSession := Some \<lparr>poses = []\<rparr>\<rparr>"

text \<open>The part of \<open>detectPose\<close> that changes \<open>this\<close>: the first estimated pose is
  appended to the session's \<open>poses\<close>.\<close>

definition detectPose :: "pose list \<Rightarrow> poseAI \<Rightarrow> poseAI" where
  "detectPose ps s =
     (case ps of
        [] \<Rightarrow> s
      | p # _ \<Rightarrow>
          (case workoutSession s of
             None \<Rightarrow> s
           | Some w \<Rightarrow> s\<lparr>workoutSession := Some (w\<lparr>poses := poses w @ [p]\<rparr>)\<rparr>))"

definition resetWorkout :: "poseAI \<Rightarrow> poseAI \<times> event list" where
  "resetWorkout s =
     (s\<lparr>reps := 0, elbowAngle := 999, backAngle := 0, upPosition := False,
        downPosition := False, highlightBack := False, backWarningGiven := False\<rparr>,
      [SetTextContent ''rep-count'' ''0'', SetTextContent ''form-score'' ''--'',
       SetTextContent ''calories'' ''0'', SetTextContent ''workout-time'' ''0:00'',
       AIFeedback ''Workout reset. Ready to start!'', FormFeedback [] []])"

definition selectExercise :: "string \<Rightarrow> poseAI \<Rightarrow> poseAI \<times> event list" where
  "selectExercise exerciseType s = resetWorkout (s\<lparr>currentExercise := exerciseType\<rparr>)"

subsection \<open>Runs and derived notions\<close>

text \<open>The drawing loop calls \<open>drawKeypoints\<close> once per tick on the same object; a tick
  that throws leaves the object as it stood at the throw, and the next tick goes on
  from there.\<close>

fun runFrames :: "pose list list \<Rightarrow> poseAI \<Rightarrow> poseAI \<times> event list" where
  "runFrames [] s = (s, [])"
| "runFrames (ps # rest) s =
     (case drawKeypoints ps s of
        r \<Rightarrow> (case runFrames rest (after r) of (s', ev') \<Rightarrow> (s', snd r @ ev')))"

text \<open>The phase of the specification: \<open>None\<close> when both flags are set.\<close>

definition phaseOf :: "poseAI \<Rightarrow> phase option" where
  "phaseOf s =
     (if upPosition s \<and> downPosition s then None
      else if downPosition s then Some Down
      else if upPosition s then Some Up
      else Some Neutral)"

text \<open>The confidence tests of \<open>updateArmAngle\<close> and \<open>updateBackAngle\<close>; a pose
  without the keypoints is not confident.\<close>

definition confidentElbow :: "pose \<Rightarrow> bool" where
  "confidentElbow p =
     (case (keypointAt p 9, keypointAt p 5, keypointAt p 7) of
        (Some leftWrist, Some leftShoulder, Some leftElbow) \<Rightarrow>
          score leftWrist > 0.3 \<and> score leftElbow > 0.3 \<and> score leftShoulder > 0.3
      | _ \<Rightarrow> False)"

definition confidentBack :: "pose \<Rightarrow> bool" where
  "confidentBack p =
     (case (keypointAt p 5, keypointAt p 11, keypointAt p 13) of
        (Some leftShoulder, Some leftHip, Some leftKnee) \<Rightarrow>
          score leftKnee > 0.3 \<and> score leftHip > 0.3 \<and> score leftShoulder > 0.3
      | _ \<Rightarrow> False)"

text \<open>The angle a pose makes the methods store: \<open>None\<close> when the confidence test
  fails or a keypoint is missing, so that the stored angle stays as it is.\<close>

definition elbowAngleOf :: "pose \<Rightarrow> real option" where
  "elbowAngleOf p =
     (case (keypointAt p 9, keypointAt p 5, keypointAt p 7) of
        (Some leftWrist, Some leftShoulder, Some leftElbow) \<Rightarrow>
          if score leftWrist > 0.3 \<and> score leftElbow > 0.3 \<and> score leftShoulder > 0.3
          then Some (jointAngle leftWrist leftElbow leftShoulder) else None
      | _ \<Rightarrow> None)"

definition backAngleOf :: "pose \<Rightarrow> real option" where
  "backAngleOf p =
     (case (keypointAt p 5, keypointAt p 11, keypointAt p 13) of
        (Some leftShoulder, Some leftHip, Some leftKnee) \<Rightarrow>
          if score leftKnee > 0.3 \<and> score leftHip > 0.3 \<and> score leftShoulder > 0.3
          then Some (jsRem (jointAngle leftKnee leftHip leftShoulder) 180) else None
      | _ \<Rightarrow> None)"

text \<open>The object after \<open>updateArmAngle\<close> and the assignment of \<open>updateBackAngle\<close>.\<close>

definition stored :: "pose \<Rightarrow> poseAI \<Rightarrow> poseAI" where
  "stored p s =
     s\<lparr>elbowAngle := (case elbowAngleOf p of Some a \<Rightarrow> a | None \<Rightarrow> elbowAngle s),
       backAngle := (case backAngleOf p of Some b \<Rightarrow> b | None \<Rightarrow> backAngle s)\<rparr>"

text \<open>The test of \<open>drawKeypoints\<close> that lets a pose reach the counter.\<close>

definition allConfident :: "pose \<Rightarrow> bool" where
  "allConfident p = (length (filter (\<lambda>kp. score kp > 0.3) (keypoints p)) = 17)"

text \<open>The spoken posture warning.\<close>

definition backWarning :: event where
  "backWarning = Speak ''Keep your back straight''"

definition warnings :: "event list \<Rightarrow> nat" where
  "warnings ev = length (filter (\<lambda>e. e = backWarning) ev)"

text \<open>The posture warning written to the page.\<close>

definition formWarning :: event where
  "formWarning = FormFeedback ''Keep your back straight'' ''warning''"

definition textWarnings :: "event list \<Rightarrow> nat" where
  "textWarnings ev = length (filter (\<lambda>e. e = formWarning) ev)"

text \<open>What the user and the page can do to the object between two ticks.\<close>

datatype action =
  DrawKeypoints "pose list"
  | DetectPose "pose list"
  | StartWorkoutSession
  | ResetWorkout
  | SelectExercise string
  | SetVoiceFeedback bool

fun perform :: "action \<Rightarrow> poseAI \<Rightarrow> poseAI" where
  "perform (DrawKeypoints ps) s = after (drawKeypoints ps s)"
| "perform (DetectPose ps) s = detectPose ps s"
| "perform StartWorkoutSession s = startWorkoutSession s"
| "perform ResetWorkout s = fst (resetWorkout s)"
| "perform (SelectExercise e) s = fst (selectExercise e s)"
| "perform (SetVoiceFeedback b) s = s\<lparr>voiceFeedbackEnabled := b\<rparr>"

inductive reachable :: "poseAI \<Rightarrow> bool" where
  initial: "reachable PoseAI_constructor"
| step: "reachable s \<Longrightarrow> reachable (perform a s)"

subsection \<open>Example poses\<close>

text \<open>A keypoint with score 1, and a pose of 17 such keypoints: nose, left shoulder,
  left wrist and left knee as given, every other keypoint (left elbow and left hip
  among them) at the origin.\<close>

definition point :: "real \<Rightarrow> real \<Rightarrow> keypoint" where
  "point a b = \<lparr>kx = a, ky = b, score = 1\<rparr>"

definition framePose :: "keypoint \<Rightarrow> keypoint \<Rightarrow> keypoint \<Rightarrow> keypoint \<Rightarrow> pose" where
  "framePose nose shoulder wrist knee =
     \<lparr>keypoints =
        [nose, point 0 0, point 0 0, point 0 0, point 0 0, shoulder, point 0 0, point 0 0,
         point 0 0, wrist, point 0 0, point 0 0, point 0 0, knee, point 0 0, point 0 0,
         point 0 0]\<rparr>"

text \<open>Arm stretched (elbow angle 180), body in line (back angle 0).\<close>

definition upPose :: pose where
  "upPose = framePose (point 0 1) (point 1 0) (point (-1) 0) (point (-1) 0)"

text \<open>Arm bent (elbow angle 90), body in line, nose below the elbow on the screen.\<close>

definition downPose :: pose where
  "downPose = framePose (point 0 1) (point 1 0) (point 0 1) (point (-1) 0)"

text \<open>Back angle 90, back angle 10 and back angle -90.\<close>

definition bentPose :: pose where
  "bentPose = framePose (point 0 1) (point 1 0) (point 0 1) (point 0 1)"

definition straightPose :: pose where
  "straightPose = framePose (point 0 1) (point 1 0) (point 0 1) (point 1 (tan (pi / 18)))"

definition mirroredPose :: pose where
  "mirroredPose = framePose (point 0 1) (point 0 1) (point (-1) 0) (point 1 0)"

text \<open>As \<open>upPose\<close>, with the left wrist and the left knee scored below the threshold.\<close>

definition faintPose :: pose where
  "faintPose =
     framePose (point 0 1) (point 1 0) \<lparr>kx = - 1, ky = 0, score = 0.2\<rparr>
       \<lparr>kx = 0, ky = 1, score = 0.2\<rparr>"

text \<open>A session whose latest stored pose is \<open>downPose\<close>.\<close>

definition inSession :: "poseAI \<Rightarrow> poseAI" where
  "inSession s = detectPose [downPose] (startWorkoutSession s)"

text \<open>A fresh object in such a session, with the elbow angle 90 stored.\<close>

definition readyState :: poseAI where
  "readyState = (inSession PoseAI_constructor)\<lparr>elbowAngle := 90\<rparr>"

text \<open>The object after the first tick of such a session on \<open>downPose\<close>: it is
  reached by a session start, a stored pose and a tick, and it is in the Down phase.\<close>

definition downState :: poseAI where
  "downState =
     perform (DrawKeypoints [downPose])
       (perform (DetectPose [downPose]) (perform StartWorkoutSession PoseAI_constructor))"

section \<open>Properties\<close>

subsection \<open>Auxiliary facts\<close>

lemma after_simps [simp]:
  "after (Returned s, ev) = s" "after (TypeError s, ev) = s"
  by (simp_all add: after_def)

lemma upRule_frame:
  "elbowAngle (fst (upRule s)) = elbowAngle s"
  "backAngle (fst (upRule s)) = backAngle s"
  "highlightBack (fst (upRule s)) = highlightBack s"
  "backWarningGiven (fst (upRule s)) = backWarningGiven s"
  "voiceFeedbackEnabled (fst (upRule s)) = voiceFeedbackEnabled s"
  "workoutSession (fst (upRule s)) = workoutSession s"
  by (simp_all add: upRule_def Let_def split: prod.splits if_splits)

lemma downRule_frame:
  "elbowAngle (fst (downRule b s)) = elbowAngle s"
  "backAngle (fst (downRule b s)) = backAngle s"
  "highlightBack (fst (downRule b s)) = highlightBack s"
  "backWarningGiven (fst (downRule b s)) = backWarningGiven s"
  "voiceFeedbackEnabled (fst (downRule b s)) = voiceFeedbackEnabled s"
  "workoutSession (fst (downRule b s)) = workoutSession s"
  "reps (fst (downRule b s)) = reps s"
  by (simp_all add: downRule_def)

lemma checkPushupPositions_after:
  "after (checkPushupPositions s) =
     (case elbowAboveNose (fst (upRule s)) of
        None \<Rightarrow> fst (upRule s)
      | Some b \<Rightarrow> fst (downRule b (fst (upRule s))))"
  by (simp add: checkPushupPositions_def split: prod.splits option.splits)

lemma checkPushupPositions_frame:
  "elbowAngle (after (checkPushupPositions s)) = elbowAngle s"
  "backAngle (after (checkPushupPositions s)) = backAngle s"
  "highlightBack (after (checkPushupPositions s)) = highlightBack s"
  "backWarningGiven (after (checkPushupPositions s)) = backWarningGiven s"
  "voiceFeedbackEnabled (after (checkPushupPositions s)) = voiceFeedbackEnabled s"
  "workoutSession (after (checkPushupPositions s)) = workoutSession s"
  by (simp_all add: checkPushupPositions_after upRule_frame downRule_frame split: option.splits)

lemma checkBack_frame:
  "elbowAngle (fst (checkBack s)) = elbowAngle s"
  "backAngle (fst (checkBack s)) = backAngle s"
  "reps (fst (checkBack s)) = reps s"
  "upPosition (fst (checkBack s)) = upPosition s"
  "downPosition (fst (checkBack s)) = downPosition s"
  "voiceFeedbackEnabled (fst (checkBack s)) = voiceFeedbackEnabled s"
  "workoutSession (fst (checkBack s)) = workoutSession s"
  by (simp_all add: checkBack_def Let_def)

lemma keypointAt_Some: "i < length (keypoints p) \<Longrightarrow> keypointAt p i = Some (keypoints p ! i)"
  by (simp add: keypointAt_def)

lemma allConfident_length: "allConfident p \<Longrightarrow> 17 \<le> length (keypoints p)"
  using length_filter_le [of "\<lambda>kp. score kp > 0.3" "keypoints p"]
  by (simp add: allConfident_def)

lemma updateArmAngle_long:
  assumes "9 < length (keypoints p)"
  shows "updateArmAngle p s =
    (Returned (s\<lparr>elbowAngle := (case elbowAngleOf p of Some a \<Rightarrow> a | None \<Rightarrow> elbowAngle s)\<rparr>), [])"
  using assms by (simp add: updateArmAngle_def elbowAngleOf_def keypointAt_Some Let_def)

lemma updateBackAngle_long:
  assumes "13 < length (keypoints p)"
  shows "updateBackAngle p s =
    (Returned (fst (checkBack (s\<lparr>backAngle := (case backAngleOf p of Some b \<Rightarrow> b | None \<Rightarrow> backAngle s)\<rparr>))),
     snd (checkBack (s\<lparr>backAngle := (case backAngleOf p of Some b \<Rightarrow> b | None \<Rightarrow> backAngle s)\<rparr>)))"
  using assms by (simp add: updateBackAngle_def backAngleOf_def keypointAt_Some Let_def split: prod.splits)

text \<open>The derived notions \<open>elbowAngleOf\<close> and \<open>backAngleOf\<close> are what the methods
  store.\<close>

lemma updateArmAngle_stores:
  assumes "elbowAngleOf p = Some a"
  shows "updateArmAngle p s = (Returned (s\<lparr>elbowAngle := a\<rparr>), [])"
  using assms
  by (auto simp: updateArmAngle_def elbowAngleOf_def Let_def split: option.splits if_splits)

lemma updateBackAngle_stores:
  assumes "backAngleOf p = Some b"
  shows "updateBackAngle p s =
    (Returned (fst (checkBack (s\<lparr>backAngle := b\<rparr>))), snd (checkBack (s\<lparr>backAngle := b\<rparr>)))"
  using assms
  by (auto simp: updateBackAngle_def backAngleOf_def Let_def case_prod_beta
      split: option.splits if_splits)

lemma andThen_Returned: "andThen (Returned s, ev) f = (fst (f s), ev @ snd (f s))"
  by (simp add: andThen_def split: prod.splits)

lemma drawKeypoints_processed:
  assumes "allConfident p"
  shows "drawKeypoints (p # rest) s =
     (fst (checkPushupPositions (fst (checkBack (stored p s)))),
      snd (checkBack (stored p s)) @ snd (checkPushupPositions (fst (checkBack (stored p s)))))"
proof -
  from assms have len: "17 \<le> length (keypoints p)" by (rule allConfident_length)
  then have a: "9 < length (keypoints p)" and b: "13 < length (keypoints p)" by simp_all
  have st: "stored p s = (s\<lparr>elbowAngle := (case elbowAngleOf p of Some a \<Rightarrow> a | None \<Rightarrow> elbowAngle s)\<rparr>)
      \<lparr>backAngle := (case backAngleOf p of Some b \<Rightarrow> b | None \<Rightarrow>
          backAngle (s\<lparr>elbowAngle := (case elbowAngleOf p of Some a \<Rightarrow> a | None \<Rightarrow> elbowAngle s)\<rparr>))\<rparr>"
    by (simp add: stored_def cong: option.case_cong)
  have "drawKeypoints (p # rest) s =
      andThen (andThen (updateArmAngle p s) (updateBackAngle p)) checkPushupPositions"
    using assms by (simp add: drawKeypoints_def allConfident_def)
  then show ?thesis
    unfolding updateArmAngle_long [OF a] andThen_Returned updateBackAngle_long [OF b] st
    by (simp add: andThen_Returned)
qed

lemma drawKeypoints_skipped:
  "\<not> allConfident p \<Longrightarrow> drawKeypoints (p # rest) s = (Returned s, [])"
  "drawKeypoints [] s = (Returned s, [])"
  by (simp_all add: drawKeypoints_def allConfident_def)


subsection \<open>The example poses evaluated\<close>

lemma atan2_values [simp]:
  "atan2 0 1 = 0" "atan2 0 (-1) = pi" "atan2 1 0 = pi / 2" "atan2 0 0 = 0"
  "atan2 (tan (pi / 18)) 1 = pi / 18"
  by (simp_all add: atan2_def arctan_tan)

lemma ceiling_minus_half: "\<lceil>- (1 / 2) :: real\<rceil> = 0"
  by (rule ceiling_unique) simp_all

lemma jsRem_values [simp]:
  "jsRem 90 180 = 90" "jsRem 10 180 = 10" "jsRem (-90) 180 = -90" "jsRem 180 180 = 0" "jsRem 0 180 = 0"
  by (simp_all add: jsRem_def ceiling_minus_half)

lemma example_angles:
  "elbowAngleOf upPose = Some 180" "backAngleOf upPose = Some 0"
  "elbowAngleOf downPose = Some 90" "backAngleOf downPose = Some 0"
  "backAngleOf bentPose = Some 90" "backAngleOf straightPose = Some 10"
  "backAngleOf mirroredPose = Some (-90)"
  "elbowAngleOf faintPose = None" "backAngleOf faintPose = None"
  by (simp_all add: elbowAngleOf_def backAngleOf_def upPose_def downPose_def bentPose_def
      straightPose_def mirroredPose_def faintPose_def framePose_def keypointAt_def point_def jointAngle_def)

lemma example_confident:
  "allConfident upPose" "allConfident downPose" "allConfident bentPose"
  "allConfident straightPose" "allConfident mirroredPose" "\<not> allConfident faintPose"
  by (simp_all add: allConfident_def upPose_def downPose_def bentPose_def
      straightPose_def mirroredPose_def faintPose_def framePose_def point_def)


subsection \<open>The two blocks of the counter\<close>

lemma checkBack_flag:
  "highlightBack (fst (checkBack s)) = (\<not> (backAngle s < 20 \<or> backAngle s > 160))"
  by (simp add: checkBack_def Let_def)

lemma upRule_reps:
  "reps (fst (upRule s)) = (if upFires s \<and> downPosition s then reps s + 1 else reps s)"
  by (simp add: upRule_def Let_def split: prod.splits)

lemma upRule_flags:
  "upPosition (fst (upRule s)) = (upFires s \<or> upPosition s)"
  "downPosition (fst (upRule s)) = (\<not> upFires s \<and> downPosition s)"
  by (simp_all add: upRule_def Let_def split: prod.splits)

lemma downRule_flags:
  "upPosition (fst (downRule b s)) = (\<not> downFires b s \<and> upPosition s)"
  "downPosition (fst (downRule b s)) = (downFires b s \<or> downPosition s)"
  by (simp_all add: downRule_def)

lemma downFires_upRule: "downFires b (fst (upRule s)) = downFires b s"
  by (simp add: downFires_def upRule_frame)

lemma elbowAboveNose_upRule: "elbowAboveNose (fst (upRule s)) = elbowAboveNose s"
  by (simp add: elbowAboveNose_def getCurrentPose_def upRule_frame)

lemma not_both_fire: "\<not> (upFires s \<and> downFires b s)"
  by (auto simp: upFires_def downFires_def)

lemma checkPushupPositions_reps:
  "reps (after (checkPushupPositions s)) = (if upFires s \<and> downPosition s then reps s + 1 else reps s)"
  by (simp add: checkPushupPositions_after downRule_frame upRule_reps split: option.splits)

lemma checkPushupPositions_alt:
  "checkPushupPositions s =
     (case elbowAboveNose s of
        None \<Rightarrow> (TypeError (fst (upRule s)), snd (upRule s))
      | Some b \<Rightarrow> (Returned (fst (downRule b (fst (upRule s)))),
                   snd (upRule s) @ snd (downRule b (fst (upRule s)))))"
proof (cases "upRule s")
  case (Pair s1 ev1)
  then have "elbowAboveNose s1 = elbowAboveNose s"
    using elbowAboveNose_upRule [of s] by simp
  with Pair show ?thesis
    by (simp add: checkPushupPositions_def split: option.splits prod.splits)
qed

lemma runFrames_Cons:
  "fst (runFrames (ps # rest) s) = fst (runFrames rest (after (drawKeypoints ps s)))"
  "snd (runFrames (ps # rest) s) =
     snd (drawKeypoints ps s) @ snd (runFrames rest (after (drawKeypoints ps s)))"
  by (simp_all split: prod.splits)

subsection \<open>Reset\<close>

text \<open>
  Claim C8. \<open>resetWorkout\<close> is idempotent: a second call in a row returns the same
  object and writes the same page texts as the first, and after either call the counter
  is 0, the phase is Neutral, the back counts as straight and no warning is marked as
  given.
\<close>

theorem resetWorkout_idempotent:
  "resetWorkout (fst (resetWorkout s)) = resetWorkout s
   \<and> reps (fst (resetWorkout s)) = 0
   \<and> phaseOf (fst (resetWorkout s)) = Some Neutral
   \<and> highlightBack (fst (resetWorkout s)) = False
   \<and> backWarningGiven (fst (resetWorkout s)) = False"
  by (simp add: resetWorkout_def phaseOf_def)

subsection \<open>The counter moves by at most one\<close>

lemma drawKeypoints_reps:
  "reps (after (drawKeypoints ps s)) = reps s \<or> reps (after (drawKeypoints ps s)) = reps s + 1"
proof (cases ps)
  case Nil
  then show ?thesis by (simp add: drawKeypoints_skipped)
next
  case (Cons p rest)
  show ?thesis
  proof (cases "allConfident p")
    case False
    with Cons show ?thesis by (simp add: drawKeypoints_skipped)
  next
    case True
    have "after (drawKeypoints ps s) = after (checkPushupPositions (fst (checkBack (stored p s))))"
      by (simp add: Cons drawKeypoints_processed [OF True] after_def)
    moreover have "reps (fst (checkBack (stored p s))) = reps s"
      by (simp add: checkBack_frame stored_def)
    ultimately show ?thesis
      by (simp add: checkPushupPositions_reps)
  qed
qed

lemma runFrames_reps: "reps s \<le> reps (fst (runFrames ticks s))"
proof (induction ticks arbitrary: s)
  case Nil
  show ?case by simp
next
  case (Cons ps rest)
  have "reps s \<le> reps (after (drawKeypoints ps s))"
    using drawKeypoints_reps [of ps s] by auto
  also have "\<dots> \<le> reps (fst (runFrames rest (after (drawKeypoints ps s))))"
    by (rule Cons.IH)
  finally show ?case by (simp only: runFrames_Cons)
qed

text \<open>
  Claim C10. One step of the counter, \<open>checkPushupPositions\<close> alone or a whole tick of
  \<open>drawKeypoints\<close>, leaves \<open>reps\<close> as it is or adds exactly 1 (also when the tick
  throws); so \<open>reps\<close> never decreases along a run of ticks without a reset.
\<close>

theorem reps_step_at_most_one:
  "(reps (after (checkPushupPositions s)) = reps s
      \<or> reps (after (checkPushupPositions s)) = reps s + 1)
   \<and> (reps (after (drawKeypoints ps s)) = reps s
      \<or> reps (after (drawKeypoints ps s)) = reps s + 1)
   \<and> reps s \<le> reps (fst (runFrames ticks s))"
  using drawKeypoints_reps [of ps s] runFrames_reps [of s ticks]
  by (simp add: checkPushupPositions_reps)

subsection \<open>The posture test\<close>

lemma drawKeypoints_after:
  "allConfident p \<Longrightarrow>
     after (drawKeypoints (p # rest) s) = after (checkPushupPositions (fst (checkBack (stored p s))))"
  by (simp add: drawKeypoints_processed after_def)

lemma stored_frame:
  "reps (stored p s) = reps s"
  "upPosition (stored p s) = upPosition s"
  "downPosition (stored p s) = downPosition s"
  "highlightBack (stored p s) = highlightBack s"
  "backWarningGiven (stored p s) = backWarningGiven s"
  "voiceFeedbackEnabled (stored p s) = voiceFeedbackEnabled s"
  "workoutSession (stored p s) = workoutSession s"
  "elbowAngle (stored p s) = (case elbowAngleOf p of Some a \<Rightarrow> a | None \<Rightarrow> elbowAngle s)"
  "backAngle (stored p s) = (case backAngleOf p of Some b \<Rightarrow> b | None \<Rightarrow> backAngle s)"
  by (simp_all add: stored_def)

lemma updateBackAngle_cases:
  "updateBackAngle p s = (TypeError s, []) \<and> backAngleOf p = None
   \<or> updateBackAngle p s =
      (Returned (fst (checkBack (s\<lparr>backAngle := (case backAngleOf p of Some b \<Rightarrow> b | None \<Rightarrow> backAngle s)\<rparr>))),
       snd (checkBack (s\<lparr>backAngle := (case backAngleOf p of Some b \<Rightarrow> b | None \<Rightarrow> backAngle s)\<rparr>)))"
  by (cases "keypointAt p 5"; cases "keypointAt p 11"; cases "keypointAt p 13")
    (simp_all add: updateBackAngle_def backAngleOf_def Let_def case_prod_beta)

text \<open>
  Claim C4. The posture test of \<open>updateBackAngle\<close> leaves \<open>backAngle\<close> as it is and
  counts the back as straight (\<open>highlightBack\<close> is false) exactly when that angle is
  below 20 or above 160. When the pose has its left shoulder, hip and knee,
  \<open>updateBackAngle\<close> returns, the angle it tests is the one it has just stored from
  these keypoints when all three score above 0.3 and the one held before otherwise,
  and the back counts as straight exactly when that angle is below 20 or above 160.
  The same holds after a whole tick of \<open>drawKeypoints\<close> on a pose that passes its
  confidence count, whether or not the tick throws later on.
\<close>

theorem back_straight_iff:
  "((highlightBack (fst (checkBack s)) = False) = (backAngle s < 20 \<or> backAngle s > 160)
      \<and> backAngle (fst (checkBack s)) = backAngle s)
   \<and> (keypointAt p 5 = Some leftShoulder \<and> keypointAt p 11 = Some leftHip
        \<and> keypointAt p 13 = Some leftKnee \<longrightarrow>
      (\<exists>t ev'. updateBackAngle p s = (Returned t, ev')
        \<and> backAngle t =
            (if score leftKnee > 0.3 \<and> score leftHip > 0.3 \<and> score leftShoulder > 0.3
             then jsRem (jointAngle leftKnee leftHip leftShoulder) 180 else backAngle s)
        \<and> (highlightBack t = False) = (backAngle t < 20 \<or> backAngle t > 160)))
   \<and> (updateBackAngle p s = (Returned s', ev) \<longrightarrow>
      backAngle s' = (case backAngleOf p of Some b \<Rightarrow> b | None \<Rightarrow> backAngle s)
      \<and> (highlightBack s' = False) = (backAngle s' < 20 \<or> backAngle s' > 160))
   \<and> (allConfident p \<longrightarrow>
      backAngle (after (drawKeypoints (p # rest) s))
        = (case backAngleOf p of Some b \<Rightarrow> b | None \<Rightarrow> backAngle s)
      \<and> (highlightBack (after (drawKeypoints (p # rest) s)) = False)
        = (backAngle (after (drawKeypoints (p # rest) s)) < 20
           \<or> backAngle (after (drawKeypoints (p # rest) s)) > 160))"
proof (intro conjI impI)
  show "(highlightBack (fst (checkBack s)) = False) = (backAngle s < 20 \<or> backAngle s > 160)"
    by (simp add: checkBack_flag)
  show "backAngle (fst (checkBack s)) = backAngle s"
    by (simp add: checkBack_frame)
next
  assume k: "keypointAt p 5 = Some leftShoulder \<and> keypointAt p 11 = Some leftHip
        \<and> keypointAt p 13 = Some leftKnee"
  let ?s1 = "if score leftKnee > 0.3 \<and> score leftHip > 0.3 \<and> score leftShoulder > 0.3
     then s\<lparr>backAngle := jsRem (jointAngle leftKnee leftHip leftShoulder) 180\<rparr> else s"
  from k have "updateBackAngle p s = (Returned (fst (checkBack ?s1)), snd (checkBack ?s1))"
    by (simp add: updateBackAngle_def Let_def case_prod_beta)
  moreover have "backAngle (fst (checkBack ?s1)) =
      (if score leftKnee > 0.3 \<and> score leftHip > 0.3 \<and> score leftShoulder > 0.3
       then jsRem (jointAngle leftKnee leftHip leftShoulder) 180 else backAngle s)"
    by (simp add: checkBack_frame)
  moreover have "(highlightBack (fst (checkBack ?s1)) = False) =
      (backAngle (fst (checkBack ?s1)) < 20 \<or> backAngle (fst (checkBack ?s1)) > 160)"
    by (simp only: checkBack_flag checkBack_frame) simp
  ultimately show "\<exists>t ev'. updateBackAngle p s = (Returned t, ev')
        \<and> backAngle t =
            (if score leftKnee > 0.3 \<and> score leftHip > 0.3 \<and> score leftShoulder > 0.3
             then jsRem (jointAngle leftKnee leftHip leftShoulder) 180 else backAngle s)
        \<and> (highlightBack t = False) = (backAngle t < 20 \<or> backAngle t > 160)"
    by blast
next
  assume r: "updateBackAngle p s = (Returned s', ev)"
  let ?s1 = "s\<lparr>backAngle := (case backAngleOf p of Some b \<Rightarrow> b | None \<Rightarrow> backAngle s)\<rparr>"
  from r updateBackAngle_cases [of p s] have s': "s' = fst (checkBack ?s1)"
    by auto
  show "backAngle s' = (case backAngleOf p of Some b \<Rightarrow> b | None \<Rightarrow> backAngle s)"
    unfolding s' by (simp add: checkBack_frame)
  show "(highlightBack s' = False) = (backAngle s' < 20 \<or> backAngle s' > 160)"
    unfolding s' by (simp only: checkBack_flag checkBack_frame) simp
next
  assume c: "allConfident p"
  show "backAngle (after (drawKeypoints (p # rest) s))
        = (case backAngleOf p of Some b \<Rightarrow> b | None \<Rightarrow> backAngle s)"
    by (simp add: drawKeypoints_after [OF c] checkPushupPositions_frame checkBack_frame
        stored_frame)
  show "(highlightBack (after (drawKeypoints (p # rest) s)) = False)
        = (backAngle (after (drawKeypoints (p # rest) s)) < 20
           \<or> backAngle (after (drawKeypoints (p # rest) s)) > 160)"
    by (simp add: drawKeypoints_after [OF c] checkPushupPositions_frame checkBack_flag
        checkBack_frame)
qed

lemma example_keypoints:
  "keypointAt bentPose 5 = Some (point 1 0)" "keypointAt bentPose 11 = Some (point 0 0)"
  "keypointAt bentPose 13 = Some (point 0 1)"
  "keypointAt straightPose 5 = Some (point 1 0)" "keypointAt straightPose 11 = Some (point 0 0)"
  "keypointAt straightPose 13 = Some (point 1 (tan (pi / 18)))"
  by (simp_all add: keypointAt_def bentPose_def straightPose_def framePose_def)

lemma example_raw_angles:
  "jsRem (jointAngle (point 0 1) (point 0 0) (point 1 0)) 180 = 90"
  "jsRem (jointAngle (point 1 (tan (pi / 18))) (point 0 0) (point 1 0)) 180 = 10"
  by (simp_all add: jointAngle_def point_def)

theorem back_straight_iff_witness:
  "allConfident bentPose \<and> allConfident straightPose
   \<and> keypointAt bentPose 5 = Some (point 1 0) \<and> keypointAt bentPose 11 = Some (point 0 0)
   \<and> keypointAt bentPose 13 = Some (point 0 1)
   \<and> (\<exists>t ev'. updateBackAngle bentPose PoseAI_constructor = (Returned t, ev')
        \<and> backAngle t = 90 \<and> highlightBack t = True)
   \<and> keypointAt straightPose 5 = Some (point 1 0)
   \<and> keypointAt straightPose 11 = Some (point 0 0)
   \<and> keypointAt straightPose 13 = Some (point 1 (tan (pi / 18)))
   \<and> (\<exists>t ev'. updateBackAngle straightPose (PoseAI_constructor\<lparr>highlightBack := True\<rparr>)
          = (Returned t, ev')
        \<and> backAngle t = 10 \<and> highlightBack t = False)
   \<and> backAngle (after (drawKeypoints [bentPose] PoseAI_constructor)) = 90
   \<and> highlightBack (after (drawKeypoints [bentPose] PoseAI_constructor)) = True
   \<and> backAngle (after (drawKeypoints [straightPose]
        (PoseAI_constructor\<lparr>highlightBack := True\<rparr>))) = 10
   \<and> highlightBack (after (drawKeypoints [straightPose]
        (PoseAI_constructor\<lparr>highlightBack := True\<rparr>))) = False"
proof -
  have c: "allConfident bentPose" "allConfident straightPose"
    by (rule example_confident)+
  have sc: "score (point 0 1) = 1" "score (point 0 0) = 1" "score (point 1 0) = 1"
    "score (point 1 (tan (pi / 18))) = 1"
    by (simp_all add: point_def)
  have bent: "\<exists>t ev'. updateBackAngle bentPose PoseAI_constructor = (Returned t, ev')
        \<and> backAngle t = 90 \<and> highlightBack t = True"
    using back_straight_iff [of PoseAI_constructor bentPose "point 1 0" "point 0 0" "point 0 1"
        PoseAI_constructor "[]" "[]"]
    by (auto simp: example_keypoints example_raw_angles sc)
  have straight: "\<exists>t ev'. updateBackAngle straightPose (PoseAI_constructor\<lparr>highlightBack := True\<rparr>)
          = (Returned t, ev')
        \<and> backAngle t = 10 \<and> highlightBack t = False"
    using back_straight_iff [of "PoseAI_constructor\<lparr>highlightBack := True\<rparr>" straightPose
        "point 1 0" "point 0 0" "point 1 (tan (pi / 18))" PoseAI_constructor "[]" "[]"]
    by (auto simp: example_keypoints example_raw_angles sc)
  have tick1: "backAngle (after (drawKeypoints [bentPose] PoseAI_constructor)) = 90
      \<and> highlightBack (after (drawKeypoints [bentPose] PoseAI_constructor)) = True"
    using back_straight_iff [of PoseAI_constructor bentPose "point 1 0" "point 0 0" "point 0 1"
        PoseAI_constructor "[]" "[]"] c
    by (auto simp: example_angles)
  have tick2: "backAngle (after (drawKeypoints [straightPose]
        (PoseAI_constructor\<lparr>highlightBack := True\<rparr>))) = 10
      \<and> highlightBack (after (drawKeypoints [straightPose]
        (PoseAI_constructor\<lparr>highlightBack := True\<rparr>))) = False"
    using back_straight_iff [of "PoseAI_constructor\<lparr>highlightBack := True\<rparr>" straightPose
        "point 1 0" "point 0 0" "point 1 (tan (pi / 18))" PoseAI_constructor "[]" "[]"] c
    by (auto simp: example_angles)
  from c bent straight tick1 tick2 show ?thesis
    by (simp add: example_keypoints)
qed

subsection \<open>Stale angles\<close>

lemma confident_iff:
  "(elbowAngleOf p = None) = (\<not> confidentElbow p)"
  "(backAngleOf p = None) = (\<not> confidentBack p)"
  by (auto simp: elbowAngleOf_def confidentElbow_def backAngleOf_def confidentBack_def
      split: option.splits)

lemma updateArmAngle_stale:
  "\<not> confidentElbow p \<Longrightarrow> after (updateArmAngle p s) = s"
  by (auto simp: updateArmAngle_def confidentElbow_def Let_def split: option.splits)

lemma updateBackAngle_stale:
  assumes "\<not> confidentBack p"
  shows "backAngle (after (updateBackAngle p s)) = backAngle s"
proof -
  from assms have "backAngleOf p = None" by (simp add: confident_iff)
  then show ?thesis
    using updateBackAngle_cases [of p s] by (auto simp: checkBack_frame)
qed

lemma drawKeypoints_angles:
  "elbowAngle (after (drawKeypoints (p # rest) s)) =
     (if allConfident p then (case elbowAngleOf p of Some a \<Rightarrow> a | None \<Rightarrow> elbowAngle s)
      else elbowAngle s)"
  "backAngle (after (drawKeypoints (p # rest) s)) =
     (if allConfident p then (case backAngleOf p of Some b \<Rightarrow> b | None \<Rightarrow> backAngle s)
      else backAngle s)"
  by (simp_all add: drawKeypoints_after drawKeypoints_skipped checkPushupPositions_frame
      checkBack_frame stored_frame)

text \<open>
  Claim C7. A pose whose left wrist, elbow and shoulder do not all score above 0.3
  leaves \<open>elbowAngle\<close> as it was, after \<open>updateArmAngle\<close> and after a whole tick; a
  pose whose left knee, hip and shoulder do not all score above 0.3 leaves
  \<open>backAngle\<close> as it was, after \<open>updateBackAngle\<close> and after a whole tick; and a pose
  that fails the confidence count of \<open>drawKeypoints\<close> leaves the whole object as it
  was and emits nothing.
\<close>

theorem stale_angles_kept:
  "(\<not> confidentElbow p \<longrightarrow>
      elbowAngle (after (updateArmAngle p s)) = elbowAngle s
      \<and> elbowAngle (after (drawKeypoints (p # rest) s)) = elbowAngle s)
   \<and> (\<not> confidentBack p \<longrightarrow>
      backAngle (after (updateBackAngle p s)) = backAngle s
      \<and> backAngle (after (drawKeypoints (p # rest) s)) = backAngle s)
   \<and> (\<not> allConfident p \<longrightarrow> drawKeypoints (p # rest) s = (Returned s, []))"
  using confident_iff [of p]
  by (auto simp: updateArmAngle_stale updateBackAngle_stale drawKeypoints_angles
      drawKeypoints_skipped)

lemma faintPose_not_confident:
  "\<not> confidentElbow faintPose" "\<not> confidentBack faintPose"
  using confident_iff [of faintPose] by (simp_all add: example_angles)

theorem stale_angles_kept_witness:
  "\<not> confidentElbow faintPose \<and> \<not> confidentBack faintPose \<and> \<not> allConfident faintPose
   \<and> elbowAngle (after (updateArmAngle faintPose PoseAI_constructor)) = 999
   \<and> elbowAngle (after (drawKeypoints [faintPose] PoseAI_constructor)) = 999
   \<and> backAngle (after (updateBackAngle faintPose PoseAI_constructor)) = 0
   \<and> backAngle (after (drawKeypoints [faintPose] PoseAI_constructor)) = 0
   \<and> drawKeypoints [faintPose] PoseAI_constructor = (Returned PoseAI_constructor, [])"
proof -
  have e: "elbowAngle PoseAI_constructor = 999" and b: "backAngle PoseAI_constructor = 0"
    by (simp_all add: PoseAI_constructor_def)
  show ?thesis
    using stale_angles_kept [of faintPose PoseAI_constructor "[]"]
      faintPose_not_confident example_confident(6) e b
    by simp
qed

subsection \<open>The down block\<close>

lemma checkPushupPositions_flags:
  "upPosition (after (checkPushupPositions s)) =
     (case elbowAboveNose s of
        None \<Rightarrow> upFires s \<or> upPosition s
      | Some b \<Rightarrow> \<not> downFires b s \<and> (upFires s \<or> upPosition s))"
  "downPosition (after (checkPushupPositions s)) =
     (case elbowAboveNose s of
        None \<Rightarrow> \<not> upFires s \<and> downPosition s
      | Some b \<Rightarrow> downFires b s \<or> (\<not> upFires s \<and> downPosition s))"
  by (simp_all add: checkPushupPositions_alt downRule_flags upRule_flags downFires_upRule
      split: option.splits)

text \<open>
  Claim C3. In \<open>checkPushupPositions\<close> the down block sets the flags to Down exactly
  when the back counts as straight (\<open>highlightBack\<close> is false), \<open>elbowAboveNose\<close> is
  true and the absolute elbow angle lies strictly between 70 and 100. When any one of
  the three fails (also when reading the current pose throws), both flags are what
  the up block left, so the down block changes nothing; and the flags go from not
  Down to Down only when all three hold.
\<close>

theorem down_needs_all_three:
  "(highlightBack s = False \<and> elbowAboveNose s = Some True
      \<and> 70 < \<bar>elbowAngle s\<bar> \<and> \<bar>elbowAngle s\<bar> < 100 \<longrightarrow>
        downPosition (after (checkPushupPositions s))
        \<and> \<not> upPosition (after (checkPushupPositions s)))
   \<and> (highlightBack s \<noteq> False \<or> elbowAboveNose s \<noteq> Some True
      \<or> \<not> (70 < \<bar>elbowAngle s\<bar> \<and> \<bar>elbowAngle s\<bar> < 100) \<longrightarrow>
        downPosition (after (checkPushupPositions s)) = downPosition (fst (upRule s))
        \<and> upPosition (after (checkPushupPositions s)) = upPosition (fst (upRule s)))
   \<and> (downPosition (after (checkPushupPositions s)) \<and> \<not> downPosition s \<longrightarrow>
        highlightBack s = False \<and> elbowAboveNose s = Some True
        \<and> 70 < \<bar>elbowAngle s\<bar> \<and> \<bar>elbowAngle s\<bar> < 100)"
  by (cases "elbowAboveNose s")
    (auto simp: checkPushupPositions_flags upRule_flags downFires_def)

lemma readyState_fields:
  "highlightBack readyState = False" "elbowAngle readyState = 90"
  "upPosition readyState = False" "downPosition readyState = False"
  "elbowAboveNose readyState = Some True"
  "elbowAboveNose (readyState\<lparr>highlightBack := True\<rparr>) = Some True"
  "elbowAboveNose (readyState\<lparr>elbowAngle := 120\<rparr>) = Some True"
  "elbowAboveNose (PoseAI_constructor\<lparr>elbowAngle := 90\<rparr>) = Some False"
  by (simp_all add: readyState_def inSession_def detectPose_def startWorkoutSession_def
      PoseAI_constructor_def elbowAboveNose_def getCurrentPose_def keypointAt_def
      downPose_def framePose_def point_def)

theorem down_needs_all_three_witness:
  "(highlightBack readyState = False \<and> elbowAboveNose readyState = Some True
      \<and> 70 < \<bar>elbowAngle readyState\<bar> \<and> \<bar>elbowAngle readyState\<bar> < 100
      \<and> downPosition (after (checkPushupPositions readyState))
      \<and> \<not> upPosition (after (checkPushupPositions readyState)))
   \<and> (highlightBack (readyState\<lparr>highlightBack := True\<rparr>) \<noteq> False
      \<and> \<not> downPosition (after (checkPushupPositions (readyState\<lparr>highlightBack := True\<rparr>))))
   \<and> (elbowAboveNose (PoseAI_constructor\<lparr>elbowAngle := 90\<rparr>) \<noteq> Some True
      \<and> \<not> downPosition (after (checkPushupPositions (PoseAI_constructor\<lparr>elbowAngle := 90\<rparr>))))
   \<and> (\<not> \<bar>elbowAngle (readyState\<lparr>elbowAngle := 120\<rparr>)\<bar> < 100
      \<and> \<not> downPosition (after (checkPushupPositions (readyState\<lparr>elbowAngle := 120\<rparr>))))"
proof -
  have u: "\<And>s. downPosition s = False \<Longrightarrow> downPosition (fst (upRule s)) = False"
    by (simp add: upRule_flags)
  have c: "downPosition (PoseAI_constructor\<lparr>elbowAngle := 90\<rparr>) = False"
    by (simp add: PoseAI_constructor_def)
  show ?thesis
    using down_needs_all_three [of readyState]
      down_needs_all_three [of "readyState\<lparr>highlightBack := True\<rparr>"]
      down_needs_all_three [of "PoseAI_constructor\<lparr>elbowAngle := 90\<rparr>"]
      down_needs_all_three [of "readyState\<lparr>elbowAngle := 120\<rparr>"]
      u [of "readyState\<lparr>highlightBack := True\<rparr>"]
      u [of "PoseAI_constructor\<lparr>elbowAngle := 90\<rparr>"]
      u [of "readyState\<lparr>elbowAngle := 120\<rparr>"] c
    by (simp add: readyState_fields)
qed

subsection \<open>The two guards exclude each other\<close>

text \<open>
  Claim C5, as stated, asks for an object on which both guards hold in one call of
  \<open>checkPushupPositions\<close>. There is none: both guards read the same stored
  \<open>elbowAngle\<close>, which the up block does not assign, and no number lies in (170, 200)
  while its absolute value lies in (70, 100).
\<close>

theorem both_rules_fire_counterexample:
  "\<not> (\<exists>s elbowAbove. upFires s \<and> downFires elbowAbove (fst (upRule s)))"
  by (simp add: downFires_upRule not_both_fire)

text \<open>
  Claim C5, amended. The guards of the up block and of the down block never hold in
  the same call, so the order of the blocks never decides the phase: when the up guard
  holds the call ends with the flags at Up, and when the down guard holds (and reading
  the current pose does not throw) it ends with the flags at Down.
\<close>

theorem rules_never_both_fire:
  "\<not> (upFires s \<and> downFires elbowAbove (fst (upRule s)))
   \<and> (upFires s \<longrightarrow>
        upPosition (after (checkPushupPositions s))
        \<and> \<not> downPosition (after (checkPushupPositions s)))
   \<and> (elbowAboveNose s = Some elbowAbove \<and> downFires elbowAbove (fst (upRule s)) \<longrightarrow>
        downPosition (after (checkPushupPositions s))
        \<and> \<not> upPosition (after (checkPushupPositions s)))"
  using not_both_fire [of s]
  by (cases "elbowAboveNose s")
    (auto simp: checkPushupPositions_flags downFires_upRule)

theorem rules_never_both_fire_witness:
  "upFires (PoseAI_constructor\<lparr>elbowAngle := 185\<rparr>)
   \<and> upPosition (after (checkPushupPositions (PoseAI_constructor\<lparr>elbowAngle := 185\<rparr>)))
   \<and> \<not> downPosition (after (checkPushupPositions (PoseAI_constructor\<lparr>elbowAngle := 185\<rparr>)))
   \<and> elbowAboveNose readyState = Some True
   \<and> downFires True (fst (upRule readyState))
   \<and> downPosition (after (checkPushupPositions readyState))
   \<and> \<not> upPosition (after (checkPushupPositions readyState))"
proof -
  have a: "upFires (PoseAI_constructor\<lparr>elbowAngle := 185\<rparr>)"
    by (simp add: upFires_def)
  have b: "downFires True (fst (upRule readyState))"
    unfolding downFires_upRule by (simp add: downFires_def readyState_fields)
  show ?thesis
    using rules_never_both_fire [of "PoseAI_constructor\<lparr>elbowAngle := 185\<rparr>" True]
      rules_never_both_fire [of readyState True] a b
    by (simp add: readyState_fields)
qed

subsection \<open>Reachable objects\<close>

lemma checkPushupPositions_not_both:
  assumes "\<not> (upPosition s \<and> downPosition s)"
  shows "\<not> (upPosition (after (checkPushupPositions s))
            \<and> downPosition (after (checkPushupPositions s)))"
  using assms not_both_fire [of s]
  by (cases "elbowAboveNose s") (auto simp: checkPushupPositions_flags)

lemma drawKeypoints_not_both:
  assumes "\<not> (upPosition s \<and> downPosition s)"
  shows "\<not> (upPosition (after (drawKeypoints ps s)) \<and> downPosition (after (drawKeypoints ps s)))"
proof (cases ps)
  case Nil
  with assms show ?thesis by (simp add: drawKeypoints_skipped)
next
  case (Cons p rest)
  show ?thesis
  proof (cases "allConfident p")
    case False
    with Cons assms show ?thesis by (simp add: drawKeypoints_skipped)
  next
    case True
    have "\<not> (upPosition (fst (checkBack (stored p s))) \<and> downPosition (fst (checkBack (stored p s))))"
      using assms by (simp add: checkBack_frame stored_frame)
    then show ?thesis
      unfolding Cons drawKeypoints_after [OF True]
      by (rule checkPushupPositions_not_both)
  qed
qed

lemma perform_not_both:
  assumes "\<not> (upPosition s \<and> downPosition s)"
  shows "\<not> (upPosition (perform a s) \<and> downPosition (perform a s))"
proof (cases a)
  case (DrawKeypoints ps)
  with assms show ?thesis by (simp add: drawKeypoints_not_both)
next
  case (DetectPose ps)
  with assms show ?thesis
    by (simp add: detectPose_def split: list.splits option.splits)
next
  case StartWorkoutSession
  with assms show ?thesis by (simp add: startWorkoutSession_def)
next
  case ResetWorkout
  then show ?thesis by (simp add: resetWorkout_def)
next
  case (SelectExercise e)
  then show ?thesis by (simp add: selectExercise_def resetWorkout_def)
next
  case (SetVoiceFeedback b)
  with assms show ?thesis by simp
qed

text \<open>
  Claim C9. In every object reachable from the constructor's by ticks of
  \<open>drawKeypoints\<close> (returning or throwing), stored poses, session starts, resets,
  exercise selections and voice toggles, \<open>upPosition\<close> and \<open>downPosition\<close> are never
  both true, so the phase is one of Neutral, Up and Down.
\<close>

theorem flags_never_both:
  "reachable s \<Longrightarrow>
     \<not> (upPosition s \<and> downPosition s)
     \<and> (phaseOf s = Some Neutral \<or> phaseOf s = Some Up \<or> phaseOf s = Some Down)"
proof (induction rule: reachable.induct)
  case initial
  show ?case by (simp add: PoseAI_constructor_def phaseOf_def)
next
  case (step s a)
  then have "\<not> (upPosition (perform a s) \<and> downPosition (perform a s))"
    by (simp add: perform_not_both)
  then show ?case by (auto simp: phaseOf_def)
qed

theorem flags_never_both_witness:
  "reachable (perform (DrawKeypoints [downPose])
       (perform (DetectPose [downPose]) (perform StartWorkoutSession PoseAI_constructor)))
   \<and> phaseOf (perform (DrawKeypoints [downPose])
       (perform (DetectPose [downPose]) (perform StartWorkoutSession PoseAI_constructor)))
     = Some Down"
proof -
  let ?s = "perform (DetectPose [downPose]) (perform StartWorkoutSession PoseAI_constructor)"
  let ?t = "perform (DrawKeypoints [downPose]) ?s"
  have r: "reachable ?t"
    by (intro reachable.step reachable.initial)
  have s: "?s = inSession PoseAI_constructor"
    by (simp add: inSession_def)
  have e: "elbowAboveNose (fst (checkBack (stored downPose ?s))) = Some True"
    unfolding s
    by (simp add: elbowAboveNose_def getCurrentPose_def checkBack_frame stored_frame
        inSession_def detectPose_def startWorkoutSession_def keypointAt_def downPose_def
        framePose_def point_def)
  have f: "downFires True (fst (checkBack (stored downPose ?s)))"
    by (simp add: downFires_def checkBack_flag checkBack_frame stored_frame example_angles)
  have "downPosition ?t"
    by (simp add: drawKeypoints_after example_confident checkPushupPositions_flags e f
        del: perform.simps(2,3))
  with flags_never_both [OF r] show ?thesis
    using r by (simp add: phaseOf_def del: perform.simps)
qed


subsection \<open>One repetition per change from Down to Up\<close>

lemma up_window_tick:
  assumes "allConfident q" and "elbowAngleOf q = Some b" and "170 < b" and "b < 200"
  shows "reps (after (drawKeypoints (q # rest) t)) = (if downPosition t then reps t + 1 else reps t)"
    and "upPosition (after (drawKeypoints (q # rest) t))"
    and "\<not> downPosition (after (drawKeypoints (q # rest) t))"
proof -
  let ?t1 = "fst (checkBack (stored q t))"
  have f: "upFires ?t1"
    using assms by (simp add: upFires_def checkBack_frame stored_frame)
  have d: "downPosition ?t1 = downPosition t" and r: "reps ?t1 = reps t"
    by (simp_all add: checkBack_frame stored_frame)
  have a: "after (drawKeypoints (q # rest) t) = after (checkPushupPositions ?t1)"
    using assms(1) by (rule drawKeypoints_after)
  show "reps (after (drawKeypoints (q # rest) t)) = (if downPosition t then reps t + 1 else reps t)"
    by (simp add: a checkPushupPositions_reps f d r)
  show "upPosition (after (drawKeypoints (q # rest) t))"
    using f not_both_fire [of ?t1]
    by (cases "elbowAboveNose ?t1") (auto simp: a checkPushupPositions_flags)
  show "\<not> downPosition (after (drawKeypoints (q # rest) t))"
    using f not_both_fire [of ?t1]
    by (cases "elbowAboveNose ?t1") (auto simp: a checkPushupPositions_flags)
qed

lemma up_window_run:
  assumes "\<forall>q\<in>set further. \<exists>b. elbowAngleOf q = Some b \<and> 170 < b \<and> b < 200"
    and "upPosition t" and "\<not> downPosition t"
  shows "reps (fst (runFrames (map (\<lambda>q. [q]) further) t)) = reps t
    \<and> upPosition (fst (runFrames (map (\<lambda>q. [q]) further) t))
    \<and> \<not> downPosition (fst (runFrames (map (\<lambda>q. [q]) further) t))"
  using assms
proof (induction further arbitrary: t)
  case Nil
  then show ?case by simp
next
  case (Cons q further)
  let ?t' = "after (drawKeypoints [q] t)"
  from Cons.prems(1) obtain b where b: "elbowAngleOf q = Some b" "170 < b" "b < 200"
    by auto
  have step: "reps ?t' = reps t \<and> upPosition ?t' \<and> \<not> downPosition ?t'"
  proof (cases "allConfident q")
    case True
    from up_window_tick [OF True b, of "[]" t] Cons.prems(3) show ?thesis by simp
  next
    case False
    with Cons.prems show ?thesis by (simp add: drawKeypoints_skipped)
  qed
  from Cons.prems(1) have "\<forall>q\<in>set further. \<exists>b. elbowAngleOf q = Some b \<and> 170 < b \<and> b < 200"
    by simp
  from Cons.IH [OF this, of ?t'] step show ?case
    by (simp add: runFrames_Cons del: runFrames.simps)
qed

lemma tick_reps:
  "reps (after (drawKeypoints ps s)) =
     (case ps of
        [] \<Rightarrow> reps s
      | p # rest \<Rightarrow>
          if allConfident p \<and> upFires (stored p s) \<and> downPosition s then reps s + 1
          else reps s)"
proof (cases ps)
  case Nil
  then show ?thesis by (simp add: drawKeypoints_skipped)
next
  case (Cons p rest)
  show ?thesis
  proof (cases "allConfident p")
    case False
    with Cons show ?thesis by (simp add: drawKeypoints_skipped)
  next
    case True
    have "upFires (fst (checkBack (stored p s))) = upFires (stored p s)"
      by (simp add: upFires_def checkBack_frame)
    with True Cons show ?thesis
      by (simp add: drawKeypoints_after checkPushupPositions_reps checkBack_frame stored_frame)
  qed
qed

lemma counted_tick:
  assumes "reps (after (drawKeypoints ps s)) \<noteq> reps s"
  shows "downPosition s"
    and "reps (after (drawKeypoints ps s)) = reps s + 1"
    and "upPosition (after (drawKeypoints ps s))"
    and "\<not> downPosition (after (drawKeypoints ps s))"
    and "170 < elbowAngle (after (drawKeypoints ps s))"
    and "elbowAngle (after (drawKeypoints ps s)) < 200"
proof -
  from assms obtain p rest where ps: "ps = p # rest"
    and c: "allConfident p" and f: "upFires (stored p s)" and d: "downPosition s"
    by (cases ps) (auto simp: tick_reps split: if_splits)
  let ?t1 = "fst (checkBack (stored p s))"
  have a: "after (drawKeypoints ps s) = after (checkPushupPositions ?t1)"
    unfolding ps using c by (rule drawKeypoints_after)
  have f1: "upFires ?t1"
    using f by (simp add: upFires_def checkBack_frame)
  show "downPosition s" by (rule d)
  show "reps (after (drawKeypoints ps s)) = reps s + 1"
    using c f d by (simp add: tick_reps ps)
  show "upPosition (after (drawKeypoints ps s))"
    using f1 not_both_fire [of ?t1]
    by (cases "elbowAboveNose ?t1") (auto simp: a checkPushupPositions_flags)
  show "\<not> downPosition (after (drawKeypoints ps s))"
    using f1 not_both_fire [of ?t1]
    by (cases "elbowAboveNose ?t1") (auto simp: a checkPushupPositions_flags)
  show "170 < elbowAngle (after (drawKeypoints ps s))"
    and "elbowAngle (after (drawKeypoints ps s)) < 200"
    using f1 by (simp_all add: a checkPushupPositions_frame upFires_def)
qed

lemma reachable_not_both:
  "reachable s \<Longrightarrow> \<not> (upPosition s \<and> downPosition s)"
proof (induction rule: reachable.induct)
  case initial
  show ?case by (simp add: PoseAI_constructor_def)
next
  case (step s a)
  then show ?case by (simp add: perform_not_both)
qed

lemma downState_fields:
  "reachable downState" "downPosition downState" "\<not> upPosition downState"
  "reps downState = 0"
proof -
  let ?t1 = "fst (checkBack (stored downPose (inSession PoseAI_constructor)))"
  show r: "reachable downState"
    unfolding downState_def by (intro reachable.step reachable.initial)
  have "downState = after (drawKeypoints [downPose] (inSession PoseAI_constructor))"
    by (simp add: downState_def inSession_def)
  then have a: "downState = after (checkPushupPositions ?t1)"
    by (simp add: drawKeypoints_after example_confident)
  have e: "elbowAboveNose ?t1 = Some True"
    by (simp add: elbowAboveNose_def getCurrentPose_def checkBack_frame stored_frame
        inSession_def detectPose_def startWorkoutSession_def keypointAt_def downPose_def
        framePose_def point_def)
  have f: "downFires True ?t1"
    by (simp add: downFires_def checkBack_flag checkBack_frame stored_frame example_angles)
  have u: "\<not> upFires ?t1"
    by (simp add: upFires_def checkBack_frame stored_frame example_angles)
  show d: "downPosition downState"
    unfolding a by (simp add: checkPushupPositions_flags e f)
  from reachable_not_both [OF r] d show "\<not> upPosition downState" by simp
  have "reps ?t1 = 0"
    by (simp add: checkBack_frame stored_frame inSession_def detectPose_def
        startWorkoutSession_def PoseAI_constructor_def)
  then show "reps downState = 0"
    unfolding a by (simp add: checkPushupPositions_reps u)
qed

text \<open>
  Claim C1. \<open>reps\<close> is incremented only on a change from Down to Up: a call of
  \<open>checkPushupPositions\<close> adds 1 exactly when the stored elbow angle lies strictly
  between 170 and 200 and the object is in the Down position, and adds nothing
  otherwise; a tick of \<open>drawKeypoints\<close> that changes \<open>reps\<close> started in the Down
  position (phase Down, for a reachable object), adds exactly 1, has its elbow angle in
  that window and ends in the Up phase; and a tick from an object that is not in the
  Down position, in particular one already in the Up phase, leaves \<open>reps\<close> as it is.
  So from an object in the Down position, a tick on a pose that passes the confidence
  count and whose elbow angle lies strictly between 170 and 200 adds exactly 1 to
  \<open>reps\<close> and ends in the Up phase, and any number of further ticks on poses whose
  elbow angle lies in that window leave \<open>reps\<close> at that value and the phase at Up.
\<close>

theorem rep_counted_once:
  "reps (after (checkPushupPositions s)) =
      (if 170 < elbowAngle s \<and> elbowAngle s < 200 \<and> downPosition s then reps s + 1
       else reps s)
   \<and> (reps (after (checkPushupPositions s)) \<noteq> reps s \<longrightarrow>
        upPosition (after (checkPushupPositions s))
        \<and> \<not> downPosition (after (checkPushupPositions s)))
   \<and> (reps (after (drawKeypoints ps s)) \<noteq> reps s \<longrightarrow>
        downPosition s
        \<and> reps (after (drawKeypoints ps s)) = reps s + 1
        \<and> 170 < elbowAngle (after (drawKeypoints ps s))
        \<and> elbowAngle (after (drawKeypoints ps s)) < 200
        \<and> phaseOf (after (drawKeypoints ps s)) = Some Up)
   \<and> (reachable s \<and> reps (after (drawKeypoints ps s)) \<noteq> reps s \<longrightarrow>
        phaseOf s = Some Down)
   \<and> (\<not> downPosition s \<longrightarrow> reps (after (drawKeypoints ps s)) = reps s)
   \<and> (downPosition s \<and> allConfident p \<and> elbowAngleOf p = Some a \<and> 170 < a \<and> a < 200
        \<and> (\<forall>q\<in>set further. \<exists>b. elbowAngleOf q = Some b \<and> 170 < b \<and> b < 200) \<longrightarrow>
        reps (after (drawKeypoints (p # rest) s)) = reps s + 1
        \<and> phaseOf (after (drawKeypoints (p # rest) s)) = Some Up
        \<and> reps (fst (runFrames (map (\<lambda>q. [q]) further) (after (drawKeypoints (p # rest) s))))
            = reps s + 1
        \<and> phaseOf (fst (runFrames (map (\<lambda>q. [q]) further) (after (drawKeypoints (p # rest) s))))
            = Some Up)"
proof (intro conjI impI)
  show "reps (after (checkPushupPositions s)) =
      (if 170 < elbowAngle s \<and> elbowAngle s < 200 \<and> downPosition s then reps s + 1
       else reps s)"
    by (simp add: checkPushupPositions_reps upFires_def)
next
  assume "reps (after (checkPushupPositions s)) \<noteq> reps s"
  then have f: "upFires s"
    by (simp add: checkPushupPositions_reps split: if_splits)
  show "upPosition (after (checkPushupPositions s))"
    using f not_both_fire [of s]
    by (cases "elbowAboveNose s") (auto simp: checkPushupPositions_flags)
  show "\<not> downPosition (after (checkPushupPositions s))"
    using f not_both_fire [of s]
    by (cases "elbowAboveNose s") (auto simp: checkPushupPositions_flags)
next
  assume n: "reps (after (drawKeypoints ps s)) \<noteq> reps s"
  show "downPosition s" and "reps (after (drawKeypoints ps s)) = reps s + 1"
    and "170 < elbowAngle (after (drawKeypoints ps s))"
    and "elbowAngle (after (drawKeypoints ps s)) < 200"
    using counted_tick [OF n] by simp_all
  show "phaseOf (after (drawKeypoints ps s)) = Some Up"
    using counted_tick(3,4) [OF n] by (simp add: phaseOf_def)
next
  assume "reachable s \<and> reps (after (drawKeypoints ps s)) \<noteq> reps s"
  then have "\<not> (upPosition s \<and> downPosition s)" and "downPosition s"
    using reachable_not_both counted_tick(1) by blast+
  then show "phaseOf s = Some Down" by (simp add: phaseOf_def)
next
  assume "\<not> downPosition s"
  then show "reps (after (drawKeypoints ps s)) = reps s"
    by (simp add: tick_reps split: list.splits)
next
  assume h: "downPosition s \<and> allConfident p \<and> elbowAngleOf p = Some a \<and> 170 < a \<and> a < 200
        \<and> (\<forall>q\<in>set further. \<exists>b. elbowAngleOf q = Some b \<and> 170 < b \<and> b < 200)"
  let ?t = "after (drawKeypoints (p # rest) s)"
  from h have hp: "allConfident p" "elbowAngleOf p = Some a" "170 < a" "a < 200"
    and hf: "\<forall>q\<in>set further. \<exists>b. elbowAngleOf q = Some b \<and> 170 < b \<and> b < 200"
    and hd: "downPosition s"
    by simp_all
  from up_window_tick [OF hp, of rest s] hd
  have t: "reps ?t = reps s + 1" "upPosition ?t" "\<not> downPosition ?t"
    by simp_all
  from up_window_run [OF hf t(2,3)] t
  show "reps ?t = reps s + 1" and "phaseOf ?t = Some Up"
    and "reps (fst (runFrames (map (\<lambda>q. [q]) further) ?t)) = reps s + 1"
    and "phaseOf (fst (runFrames (map (\<lambda>q. [q]) further) ?t)) = Some Up"
    by (simp_all add: phaseOf_def)
qed

theorem rep_counted_once_witness:
  "reachable downState \<and> phaseOf downState = Some Down \<and> reps downState = 0
   \<and> allConfident upPose \<and> elbowAngleOf upPose = Some 180
   \<and> reps (after (drawKeypoints [upPose] downState)) = 1
   \<and> phaseOf (after (drawKeypoints [upPose] downState)) = Some Up
   \<and> reps (fst (runFrames [[upPose], [upPose], [upPose]]
        (after (drawKeypoints [upPose] downState)))) = 1
   \<and> phaseOf (fst (runFrames [[upPose], [upPose], [upPose]]
        (after (drawKeypoints [upPose] downState)))) = Some Up
   \<and> \<not> downPosition PoseAI_constructor
   \<and> reps (after (drawKeypoints [upPose] PoseAI_constructor)) = 0
   \<and> reps (after (checkPushupPositions (downState\<lparr>elbowAngle := 185\<rparr>))) = 1
   \<and> upPosition (after (checkPushupPositions (downState\<lparr>elbowAngle := 185\<rparr>)))
   \<and> \<not> downPosition (after (checkPushupPositions (downState\<lparr>elbowAngle := 185\<rparr>)))"
proof -
  note d = downState_fields
  note T = rep_counted_once [of downState "[upPose]" upPose 180 "[upPose, upPose, upPose]" "[]"]
  note N = rep_counted_once [of PoseAI_constructor "[upPose]" upPose 180 "[]" "[]"]
  note K = rep_counted_once [of "downState\<lparr>elbowAngle := 185\<rparr>" "[]" upPose 180 "[]" "[]"]
  have hyp: "downPosition downState \<and> allConfident upPose \<and> elbowAngleOf upPose = Some 180
      \<and> (170 :: real) < 180 \<and> (180 :: real) < 200
      \<and> (\<forall>q\<in>set [upPose, upPose, upPose]. \<exists>b. elbowAngleOf q = Some b \<and> 170 < b \<and> b < 200)"
    by (simp add: d example_confident example_angles)
  from T [THEN conjunct2, THEN conjunct2, THEN conjunct2, THEN conjunct2, THEN conjunct2,
      THEN mp, OF hyp]
  have scenario: "reps (after (drawKeypoints [upPose] downState)) = 1
      \<and> phaseOf (after (drawKeypoints [upPose] downState)) = Some Up
      \<and> reps (fst (runFrames [[upPose], [upPose], [upPose]]
          (after (drawKeypoints [upPose] downState)))) = 1
      \<and> phaseOf (fst (runFrames [[upPose], [upPose], [upPose]]
          (after (drawKeypoints [upPose] downState)))) = Some Up"
    by (simp add: d del: runFrames.simps)
  then have ne: "reps (after (drawKeypoints [upPose] downState)) \<noteq> reps downState"
    by (simp add: d)
  from T [THEN conjunct2, THEN conjunct2, THEN conjunct2, THEN conjunct1, THEN mp,
      OF conjI [OF d(1) ne]]
  have ph: "phaseOf downState = Some Down" .
  have c0: "\<not> downPosition PoseAI_constructor" "reps PoseAI_constructor = 0"
    by (simp_all add: PoseAI_constructor_def)
  from N [THEN conjunct2, THEN conjunct2, THEN conjunct2, THEN conjunct2, THEN conjunct1,
      THEN mp, OF c0(1)]
  have neutral: "reps (after (drawKeypoints [upPose] PoseAI_constructor)) = 0"
    by (simp add: c0)
  from K [THEN conjunct1]
  have k: "reps (after (checkPushupPositions (downState\<lparr>elbowAngle := 185\<rparr>))) = 1"
    by (simp add: d)
  then have ne2: "reps (after (checkPushupPositions (downState\<lparr>elbowAngle := 185\<rparr>)))
      \<noteq> reps (downState\<lparr>elbowAngle := 185\<rparr>)"
    by (simp add: d)
  from K [THEN conjunct2, THEN conjunct1, THEN mp, OF ne2]
  have fl: "upPosition (after (checkPushupPositions (downState\<lparr>elbowAngle := 185\<rparr>)))
      \<and> \<not> downPosition (after (checkPushupPositions (downState\<lparr>elbowAngle := 185\<rparr>)))" .
  from d(1,4) ph hyp scenario c0(1) neutral k fl show ?thesis
    by (intro conjI) (simp_all del: runFrames.simps)
qed

subsection \<open>The posture warning\<close>

lemma toString_last: "last (toString n) = ''0123456789'' ! (n mod 10)"
  by (subst toString.simps) simp

lemma toString_not_warning: "toString n \<noteq> ''Keep your back straight''"
proof
  assume "toString n = ''Keep your back straight''"
  then have "last (toString n) = CHR ''t''" by simp
  then have t: "''0123456789'' ! (n mod 10) = CHR ''t''" by (simp only: toString_last)
  have "n mod 10 < length ''0123456789''" by simp
  then have "''0123456789'' ! (n mod 10) \<in> set ''0123456789''" by (rule nth_mem)
  with t show False by simp
qed

lemma warnings_simps [simp]:
  "warnings [] = 0"
  "warnings (ev @ ev') = warnings ev + warnings ev'"
  "warnings (e # ev) = (if e = backWarning then 1 else 0) + warnings ev"
  "textWarnings [] = 0"
  "textWarnings (ev @ ev') = textWarnings ev + textWarnings ev'"
  "textWarnings (e # ev) = (if e = formWarning then 1 else 0) + textWarnings ev"
  by (simp_all add: warnings_def textWarnings_def)

lemma warnings_upRule: "warnings (snd (upRule s)) = 0" "textWarnings (snd (upRule s)) = 0"
  by (simp_all add: upRule_def Let_def speak_def backWarning_def formWarning_def
      toString_not_warning split: prod.splits)

lemma warnings_downRule: "warnings (snd (downRule b s)) = 0" "textWarnings (snd (downRule b s)) = 0"
  by (simp_all add: downRule_def speak_def backWarning_def formWarning_def)

lemma warnings_checkPushupPositions:
  "warnings (snd (checkPushupPositions s)) = 0"
  "textWarnings (snd (checkPushupPositions s)) = 0"
  by (simp_all add: checkPushupPositions_alt warnings_upRule warnings_downRule
      split: option.splits)

lemma checkBack_warning:
  "warnings (snd (checkBack s)) =
     (if \<not> (backAngle s < 20 \<or> backAngle s > 160) \<and> \<not> backWarningGiven s
         \<and> voiceFeedbackEnabled s then 1 else 0)"
  "textWarnings (snd (checkBack s)) =
     (if \<not> (backAngle s < 20 \<or> backAngle s > 160) then 1 else 0)"
  "backWarningGiven (fst (checkBack s)) =
     (backWarningGiven s
      \<or> (\<not> (backAngle s < 20 \<or> backAngle s > 160) \<and> voiceFeedbackEnabled s))"
  by (simp_all add: checkBack_def Let_def speak_def backWarning_def formWarning_def)


lemma tick_warning:
  assumes "allConfident p"
  shows "warnings (snd (drawKeypoints (p # rest) s)) =
      (if \<not> (backAngle (stored p s) < 20 \<or> backAngle (stored p s) > 160)
          \<and> \<not> backWarningGiven s \<and> voiceFeedbackEnabled s then 1 else 0)"
    and "textWarnings (snd (drawKeypoints (p # rest) s)) =
      (if \<not> (backAngle (stored p s) < 20 \<or> backAngle (stored p s) > 160) then 1 else 0)"
    and "backWarningGiven (after (drawKeypoints (p # rest) s)) =
      (backWarningGiven s
       \<or> (\<not> (backAngle (stored p s) < 20 \<or> backAngle (stored p s) > 160)
          \<and> voiceFeedbackEnabled s))"
    and "voiceFeedbackEnabled (after (drawKeypoints (p # rest) s)) = voiceFeedbackEnabled s"
    and "highlightBack (after (drawKeypoints (p # rest) s)) =
      (\<not> (backAngle (stored p s) < 20 \<or> backAngle (stored p s) > 160))"
proof -
  show "warnings (snd (drawKeypoints (p # rest) s)) =
      (if \<not> (backAngle (stored p s) < 20 \<or> backAngle (stored p s) > 160)
          \<and> \<not> backWarningGiven s \<and> voiceFeedbackEnabled s then 1 else 0)"
    and "textWarnings (snd (drawKeypoints (p # rest) s)) =
      (if \<not> (backAngle (stored p s) < 20 \<or> backAngle (stored p s) > 160) then 1 else 0)"
    by (simp_all add: drawKeypoints_processed [OF assms] warnings_checkPushupPositions
        checkBack_warning stored_frame)
  show "backWarningGiven (after (drawKeypoints (p # rest) s)) =
      (backWarningGiven s
       \<or> (\<not> (backAngle (stored p s) < 20 \<or> backAngle (stored p s) > 160)
          \<and> voiceFeedbackEnabled s))"
    and "voiceFeedbackEnabled (after (drawKeypoints (p # rest) s)) = voiceFeedbackEnabled s"
    and "highlightBack (after (drawKeypoints (p # rest) s)) =
      (\<not> (backAngle (stored p s) < 20 \<or> backAngle (stored p s) > 160))"
    by (simp_all add: drawKeypoints_after [OF assms] checkBack_warning
        checkPushupPositions_frame checkBack_frame checkBack_flag stored_frame)
qed

lemma tick_warning_any:
  "warnings (snd (drawKeypoints ps s)) \<le> 1"
  "warnings (snd (drawKeypoints ps s)) = 1 \<Longrightarrow> backWarningGiven (after (drawKeypoints ps s))"
  "backWarningGiven s \<Longrightarrow>
     warnings (snd (drawKeypoints ps s)) = 0 \<and> backWarningGiven (after (drawKeypoints ps s))"
proof -
  have "warnings (snd (drawKeypoints ps s)) \<le> 1
    \<and> (warnings (snd (drawKeypoints ps s)) = 1 \<longrightarrow> backWarningGiven (after (drawKeypoints ps s)))
    \<and> (backWarningGiven s \<longrightarrow>
        warnings (snd (drawKeypoints ps s)) = 0 \<and> backWarningGiven (after (drawKeypoints ps s)))"
  proof (cases ps)
    case Nil
    then show ?thesis by (simp add: drawKeypoints_skipped)
  next
    case (Cons p rest)
    show ?thesis
    proof (cases "allConfident p")
      case True
      show ?thesis unfolding Cons by (simp add: tick_warning [OF True])
    next
      case False
      then show ?thesis unfolding Cons by (simp add: drawKeypoints_skipped)
    qed
  qed
  then show "warnings (snd (drawKeypoints ps s)) \<le> 1"
    and "warnings (snd (drawKeypoints ps s)) = 1 \<Longrightarrow> backWarningGiven (after (drawKeypoints ps s))"
    and "backWarningGiven s \<Longrightarrow>
     warnings (snd (drawKeypoints ps s)) = 0 \<and> backWarningGiven (after (drawKeypoints ps s))"
    by simp_all
qed

lemma run_after_warning:
  "backWarningGiven s \<Longrightarrow>
     warnings (snd (runFrames ticks s)) = 0 \<and> backWarningGiven (fst (runFrames ticks s))"
proof (induction ticks arbitrary: s)
  case Nil
  then show ?case by simp
next
  case (Cons ps ticks)
  from tick_warning_any(3) [OF Cons.prems, of ps]
  have a: "warnings (snd (drawKeypoints ps s)) = 0"
    and b: "backWarningGiven (after (drawKeypoints ps s))" by simp_all
  from Cons.IH [OF b] a show ?case
    by (simp add: runFrames_Cons del: runFrames.simps)
qed

lemma run_warnings_le: "warnings (snd (runFrames ticks s)) \<le> 1"
proof (induction ticks arbitrary: s)
  case Nil
  show ?case by simp
next
  case (Cons ps ticks)
  show ?case
  proof (cases "warnings (snd (drawKeypoints ps s)) = 1")
    case True
    then have "backWarningGiven (after (drawKeypoints ps s))" by (rule tick_warning_any(2))
    from run_after_warning [OF this, of ticks] True show ?thesis
      by (simp add: runFrames_Cons del: runFrames.simps)
  next
    case False
    with tick_warning_any(1) [of ps s] have "warnings (snd (drawKeypoints ps s)) = 0" by simp
    with Cons.IH [of "after (drawKeypoints ps s)"] show ?thesis
      by (simp add: runFrames_Cons del: runFrames.simps)
  qed
qed

text \<open>
  Claim C2, amended. Along any run of ticks without a reset the posture warning is
  spoken at most once: once \<open>backWarningGiven\<close> is set, no tick speaks the warning and
  no tick clears the flag, whatever the posture does; only \<open>resetWorkout\<close> clears it.
  With the flag clear and voice feedback on, a tick on a confident pose whose back
  angle lies in [20, 160] speaks the warning once and sets the flag. The warning text
  on the page is written on every such tick, flag or no flag.
\<close>

theorem warning_once_until_reset:
  "warnings (snd (runFrames ticks s)) \<le> 1
   \<and> (backWarningGiven s \<longrightarrow>
        warnings (snd (runFrames ticks s)) = 0 \<and> backWarningGiven (fst (runFrames ticks s)))
   \<and> (allConfident p \<and> (\<exists>b. backAngleOf p = Some b \<and> 20 \<le> b \<and> b \<le> 160)
        \<and> \<not> backWarningGiven s \<and> voiceFeedbackEnabled s \<longrightarrow>
        warnings (snd (drawKeypoints (p # rest) s)) = 1
        \<and> backWarningGiven (after (drawKeypoints (p # rest) s)))
   \<and> (allConfident p \<and> (\<exists>b. backAngleOf p = Some b \<and> 20 \<le> b \<and> b \<le> 160) \<longrightarrow>
        textWarnings (snd (drawKeypoints (p # rest) s)) = 1)
   \<and> backWarningGiven (fst (resetWorkout s)) = False"
proof (intro conjI impI)
  show "warnings (snd (runFrames ticks s)) \<le> 1" by (rule run_warnings_le)
next
  assume "backWarningGiven s"
  then show "warnings (snd (runFrames ticks s)) = 0" and "backWarningGiven (fst (runFrames ticks s))"
    using run_after_warning by simp_all
next
  assume a: "allConfident p \<and> (\<exists>b. backAngleOf p = Some b \<and> 20 \<le> b \<and> b \<le> 160)
        \<and> \<not> backWarningGiven s \<and> voiceFeedbackEnabled s"
  then have c: "allConfident p" by simp
  from a show "warnings (snd (drawKeypoints (p # rest) s)) = 1"
    and "backWarningGiven (after (drawKeypoints (p # rest) s))"
    by (auto simp: tick_warning [OF c] stored_frame)
next
  assume a: "allConfident p \<and> (\<exists>b. backAngleOf p = Some b \<and> 20 \<le> b \<and> b \<le> 160)"
  then have c: "allConfident p" by simp
  from a show "textWarnings (snd (drawKeypoints (p # rest) s)) = 1"
    by (auto simp: tick_warning [OF c] stored_frame)
next
  show "backWarningGiven (fst (resetWorkout s)) = False" by (simp add: resetWorkout_def)
qed


lemma constructor_fields:
  "backWarningGiven PoseAI_constructor = False" "voiceFeedbackEnabled PoseAI_constructor = True"
  "backAngle PoseAI_constructor = 0" "elbowAngle PoseAI_constructor = 999"
  "reps PoseAI_constructor = 0" "highlightBack PoseAI_constructor = False"
  by (simp_all add: PoseAI_constructor_def)

theorem warning_once_until_reset_witness:
  "allConfident bentPose \<and> backAngleOf bentPose = Some 90
   \<and> \<not> backWarningGiven PoseAI_constructor \<and> voiceFeedbackEnabled PoseAI_constructor
   \<and> warnings (snd (drawKeypoints [bentPose] PoseAI_constructor)) = 1
   \<and> textWarnings (snd (drawKeypoints [bentPose] PoseAI_constructor)) = 1
   \<and> backWarningGiven (after (drawKeypoints [bentPose] PoseAI_constructor))
   \<and> warnings (snd (runFrames [[straightPose], [bentPose]]
        (after (drawKeypoints [bentPose] PoseAI_constructor)))) = 0
   \<and> backWarningGiven (fst (runFrames [[straightPose], [bentPose]]
        (after (drawKeypoints [bentPose] PoseAI_constructor))))"
proof -
  have h: "allConfident bentPose \<and> (\<exists>b. backAngleOf bentPose = Some b \<and> 20 \<le> b \<and> b \<le> 160)"
    by (simp add: example_confident example_angles)
  have one: "warnings (snd (drawKeypoints [bentPose] PoseAI_constructor)) = 1
      \<and> textWarnings (snd (drawKeypoints [bentPose] PoseAI_constructor)) = 1
      \<and> backWarningGiven (after (drawKeypoints [bentPose] PoseAI_constructor))"
    using warning_once_until_reset [of "[]" PoseAI_constructor bentPose "[]"] h
    by (simp add: constructor_fields)
  then have "backWarningGiven (after (drawKeypoints [bentPose] PoseAI_constructor))" by simp
  with warning_once_until_reset [of "[[straightPose], [bentPose]]"
      "after (drawKeypoints [bentPose] PoseAI_constructor)" bentPose "[]"]
  have "warnings (snd (runFrames [[straightPose], [bentPose]]
        (after (drawKeypoints [bentPose] PoseAI_constructor)))) = 0
      \<and> backWarningGiven (fst (runFrames [[straightPose], [bentPose]]
        (after (drawKeypoints [bentPose] PoseAI_constructor))))"
    by blast
  with one h show ?thesis
    by (simp add: constructor_fields example_angles)
qed

lemma runFrames_Nil: "fst (runFrames [] s) = s" "snd (runFrames [] s) = []"
  by simp_all

text \<open>
  Claim C2, as stated, fails on the run it describes, from the constructor's object
  (voice feedback on): five ticks on a pose with back angle 90 write the page warning
  five times; after one more tick on a pose with back angle 10 the back counts as
  straight but \<open>backWarningGiven\<close> is still set, and a following tick on the pose with
  back angle 90 does not speak the warning again.
\<close>

theorem warning_per_run_counterexample:
  "backAngleOf bentPose = Some 90 \<and> backAngleOf straightPose = Some 10
   \<and> textWarnings (snd (runFrames [[bentPose], [bentPose], [bentPose], [bentPose], [bentPose]]
        PoseAI_constructor)) = 5
   \<and> highlightBack (fst (runFrames
        [[bentPose], [bentPose], [bentPose], [bentPose], [bentPose], [straightPose]]
        PoseAI_constructor)) = False
   \<and> backWarningGiven (fst (runFrames
        [[bentPose], [bentPose], [bentPose], [bentPose], [bentPose], [straightPose]]
        PoseAI_constructor)) = True
   \<and> warnings (snd (drawKeypoints [bentPose] (fst (runFrames
        [[bentPose], [bentPose], [bentPose], [bentPose], [bentPose], [straightPose]]
        PoseAI_constructor)))) = 0"
proof -
  note tick = tick_warning [OF example_confident(3)] tick_warning [OF example_confident(4)]
  have bent: "\<And>s. backAngle (stored bentPose s) = 90"
    and straight: "\<And>s. backAngle (stored straightPose s) = 10"
    by (simp_all add: stored_frame example_angles)
  have five: "textWarnings (snd (runFrames [[bentPose], [bentPose], [bentPose], [bentPose], [bentPose]]
        PoseAI_constructor)) = 5"
    by (simp add: runFrames_Cons runFrames_Nil tick bent del: runFrames.simps)
  have flag: "backWarningGiven (fst (runFrames
        [[bentPose], [bentPose], [bentPose], [bentPose], [bentPose], [straightPose]]
        PoseAI_constructor)) = True"
    by (simp add: runFrames_Cons runFrames_Nil tick bent straight constructor_fields
        del: runFrames.simps)
  have hb: "highlightBack (fst (runFrames
        [[bentPose], [bentPose], [bentPose], [bentPose], [bentPose], [straightPose]]
        PoseAI_constructor)) = False"
    by (simp add: runFrames_Cons runFrames_Nil tick bent straight del: runFrames.simps)
  have seventh: "warnings (snd (drawKeypoints [bentPose] (fst (runFrames
        [[bentPose], [bentPose], [bentPose], [bentPose], [bentPose], [straightPose]]
        PoseAI_constructor)))) = 0"
    unfolding tick(1) using flag by simp
  from five flag hb seventh show ?thesis
    by (simp add: example_angles)
qed

subsection \<open>A negative back angle\<close>

text \<open>
  Claim C6 fails on the code. For the confident pose \<open>mirroredPose\<close> (left hip at the
  origin, left knee at (1, 0), left shoulder at (0, 1)) the difference of the two
  directions is -90 degrees, the remainder operator keeps the sign of the dividend, and
  \<open>updateBackAngle\<close> stores -90, which is outside [0, 180); the posture test then
  counts this right-angled back as straight, since -90 is below 20.
\<close>

theorem mirrored_back_angle_negative:
  "allConfident mirroredPose \<and> confidentBack mirroredPose
   \<and> backAngleOf mirroredPose = Some (- 90)
   \<and> backAngle (after (updateBackAngle mirroredPose PoseAI_constructor)) = - 90
   \<and> backAngle (after (drawKeypoints [mirroredPose] PoseAI_constructor)) = - 90
   \<and> highlightBack (after (drawKeypoints [mirroredPose] PoseAI_constructor)) = False"
proof -
  have c: "allConfident mirroredPose" by (rule example_confident)
  have b: "confidentBack mirroredPose"
    using confident_iff(2) [of mirroredPose] by (simp add: example_angles)
  have l: "13 < length (keypoints mirroredPose)"
    by (simp add: mirroredPose_def framePose_def)
  have u: "backAngle (after (updateBackAngle mirroredPose PoseAI_constructor)) = - 90"
    by (simp add: updateBackAngle_long [OF l] checkBack_frame example_angles)
  have d: "backAngle (after (drawKeypoints [mirroredPose] PoseAI_constructor)) = - 90"
    by (simp add: drawKeypoints_angles c example_angles)
  have h: "highlightBack (after (drawKeypoints [mirroredPose] PoseAI_constructor)) = False"
    by (simp add: tick_warning [OF c] stored_frame example_angles)
  from c b u d h show ?thesis by (simp add: example_angles)
qed

subsection \<open>The range of the stored back angle\<close>

text \<open>
  What the fold \<open>angle % 180\<close> does give: the result has the sign of the angle and
  its absolute value is below 180, so a stored back angle lies strictly between -180
  and 180, and in [0, 180) when the difference of the two directions is not negative.
\<close>

lemma quotient_bounds:
  fixes d n q :: real
  assumes "0 < d"
  shows "q \<le> n / d \<Longrightarrow> d * q \<le> n"
    and "n / d < q + 1 \<Longrightarrow> n < d * q + d"
    and "n / d \<le> q \<Longrightarrow> n \<le> d * q"
    and "q < n / d + 1 \<Longrightarrow> d * q < n + d"
  using assms by (simp_all add: field_simps)

lemma jsRem_sign:
  assumes "0 < d"
  shows "0 \<le> n \<Longrightarrow> 0 \<le> jsRem n d \<and> jsRem n d < d"
    and "n < 0 \<Longrightarrow> - d < jsRem n d \<and> jsRem n d \<le> 0"
proof -
  assume n: "0 \<le> n"
  with assms have q: "0 \<le> n / d" by simp
  have f1: "of_int \<lfloor>n / d\<rfloor> \<le> n / d" and f2: "n / d < of_int \<lfloor>n / d\<rfloor> + 1"
    by linarith+
  have "d * of_int \<lfloor>n / d\<rfloor> \<le> n" and "n < d * of_int \<lfloor>n / d\<rfloor> + d"
    using quotient_bounds(1) [OF assms f1] quotient_bounds(2) [OF assms f2] by blast+
  with q show "0 \<le> jsRem n d \<and> jsRem n d < d"
    by (simp add: jsRem_def)
next
  assume n: "n < 0"
  with assms have q: "\<not> 0 \<le> n / d" by (simp add: divide_less_0_iff not_le)
  have c1: "n / d \<le> of_int \<lceil>n / d\<rceil>" and c2: "of_int \<lceil>n / d\<rceil> < n / d + 1"
    by linarith+
  have "n \<le> d * of_int \<lceil>n / d\<rceil>" and "d * of_int \<lceil>n / d\<rceil> < n + d"
    using quotient_bounds(3) [OF assms c1] quotient_bounds(4) [OF assms c2] by blast+
  with q show "- d < jsRem n d \<and> jsRem n d \<le> 0"
    by (simp add: jsRem_def)
qed

lemma backAngleOf_range:
  assumes "backAngleOf p = Some b"
  shows "- 180 < b \<and> b < 180"
proof -
  from assms obtain n where "b = jsRem n 180"
    by (auto simp: backAngleOf_def split: option.splits if_splits)
  then show ?thesis
    using jsRem_sign [of 180 n] by (cases "0 \<le> n") auto
qed

end
